theory Spec2Isabelle
  imports Main "HOL-Library.Word"
begin

unbundle bit_operations_syntax

section \<open>The I2C driver of I2C.c and I2C.h\<close>

text \<open>
  The driver is embedded as it is configured in I2C.h: \<^verbatim>\<open>DEBUG_I2C\<close> and
  \<^verbatim>\<open>CALL_I2CISR\<close> are both commented out there, so \<^verbatim>\<open>ADD_DEBUG\<close> and
  \<^verbatim>\<open>INIT_DEBUG\<close> expand to nothing and \<^verbatim>\<open>I2CISR\<close> is never called.
\<close>

subsection \<open>Data model\<close>

text \<open>The enumeration \<^verbatim>\<open>I2C_STATUS\<close> of I2C.h, in its order.\<close>

datatype I2C_STATUS =
    I2C_COMPLETE
  | I2C_WORKING
  | I2C_NO_SLAVE_ACK
  | I2C_SLAVE_DATA_NACK
  | I2C_REP_START
  | I2C_ARB_LOST
  | I2C_BUS_ERROR

text \<open>
  The static struct \<^verbatim>\<open>I2C\<close>. \<^verbatim>\<open>uint8_t\<close> fields are 8-bit words. The pointer
  \<^verbatim>\<open>Buffer\<close> is the number of a byte cell of the memory below; \<^verbatim>\<open>Buffer++\<close>
  moves it to the next cell.
\<close>

record I2C_t =
  SlaveAddr :: "8 word"
  nBytes :: "8 word"
  Buffer :: nat
  NoStop :: bool
  Status :: I2C_STATUS

text \<open>
  The state the driver's functions work on: the struct and the byte memory that the
  caller's buffers live in. The struct is \<^verbatim>\<open>static\<close>, so no buffer can overlap it.
\<close>

record sys =
  I2C :: I2C_t
  RAM :: "nat \<Rightarrow> 8 word"

text \<open>
  The TWI peripheral is volatile hardware. Every function returns, next to the new
  state, the accesses it makes to the peripheral, in program order, written as the
  source writes them: the register and bit names are those of I2C.c, and the macros
  \<^verbatim>\<open>_SET_BIT\<close>, \<^verbatim>\<open>_CLR_BIT\<close> and \<^verbatim>\<open>_SET_MASK\<close> (of PortMacros.h, which is not
  part of the sources) are recorded with their arguments instead of being expanded.
\<close>

datatype reg = TWCR | TWDR | TWSR | TWBR | TWAR | PRR | MCUCR | PORT_TWI

datatype pin =
    TWINT | TWEA | TWSTA | TWSTO | TWEN | TWIE
  | TWPS0 | TWPS1 | PRTWI | PUD | SCL_BIT | SDA_BIT

datatype hw_op =
    SET_BIT reg pin
  | CLR_BIT reg pin
  | SET_MASK reg "pin list"
  | WRITE reg "8 word"
  | READ reg

text \<open>The macros of lines 155 to 157.\<close>

definition START_I2C :: hw_op where
  "START_I2C = SET_MASK TWCR [TWINT, TWSTA]"

definition STOP_I2C :: hw_op where
  "STOP_I2C = SET_MASK TWCR [TWINT, TWSTO]"

definition STEP_I2C :: hw_op where
  "STEP_I2C = SET_BIT TWCR TWINT"

lemmas macro_defs = START_I2C_def STOP_I2C_def STEP_I2C_def

text \<open>The TWSR values of lines 114 to 145 that the interrupt routine names.\<close>

definition TW_START :: "8 word" where "TW_START = 0x08"
definition TW_REP_START :: "8 word" where "TW_REP_START = 0x10"
definition TW_ARB_LOST :: "8 word" where "TW_ARB_LOST = 0x38"
definition TW_MT_SLA_ACK :: "8 word" where "TW_MT_SLA_ACK = 0x18"
definition TW_MT_SLA_NACK :: "8 word" where "TW_MT_SLA_NACK = 0x20"
definition TW_MT_DATA_ACK :: "8 word" where "TW_MT_DATA_ACK = 0x28"
definition TW_MT_DATA_NACK :: "8 word" where "TW_MT_DATA_NACK = 0x30"
definition TW_MR_SLA_ACK :: "8 word" where "TW_MR_SLA_ACK = 0x40"
definition TW_MR_SLA_NACK :: "8 word" where "TW_MR_SLA_NACK = 0x48"
definition TW_MR_DATA_ACK :: "8 word" where "TW_MR_DATA_ACK = 0x50"
definition TW_MR_DATA_NACK :: "8 word" where "TW_MR_DATA_NACK = 0x58"
definition TW_SR_SLA_ACK :: "8 word" where "TW_SR_SLA_ACK = 0x60"
definition TW_NO_INFO :: "8 word" where "TW_NO_INFO = 0xF8"
definition TW_BUS_ERROR :: "8 word" where "TW_BUS_ERROR = 0x00"

lemmas TW_defs =
  TW_START_def TW_REP_START_def TW_ARB_LOST_def TW_MT_SLA_ACK_def TW_MT_SLA_NACK_def
  TW_MT_DATA_ACK_def TW_MT_DATA_NACK_def TW_MR_SLA_ACK_def TW_MR_SLA_NACK_def
  TW_MR_DATA_ACK_def TW_MR_DATA_NACK_def TW_SR_SLA_ACK_def TW_NO_INFO_def
  TW_BUS_ERROR_def

subsection \<open>The control functions\<close>

text \<open>
  \<^verbatim>\<open>I2CInit\<close>: \<^verbatim>\<open>memset\<close> zeroes the struct (a null pointer is cell 0 and the
  enumeration's value 0 is \<^verbatim>\<open>I2C_COMPLETE\<close>), then the peripheral is configured and
  the status is set to \<^verbatim>\<open>I2C_COMPLETE\<close>. The divisor written to TWBR is computed
  from \<^verbatim>\<open>F_CPU\<close>, which the sources do not define, so the computation is the
  parameter \<open>divisor\<close>.
\<close>

definition I2CInit :: "(8 word \<Rightarrow> 8 word) \<Rightarrow> 8 word \<Rightarrow> 8 word \<Rightarrow> bool \<Rightarrow> sys \<Rightarrow> sys \<times> hw_op list" where
  "I2CInit divisor KHz OurAddr UseInternalPullups s =
     (let zeroed = \<lparr>SlaveAddr = 0, nBytes = 0, Buffer = 0, NoStop = False,
                     Status = I2C_COMPLETE\<rparr>
      in (s\<lparr>I2C := zeroed\<lparr>Status := I2C_COMPLETE\<rparr>\<rparr>,
          [CLR_BIT PRR PRTWI] @
          (if UseInternalPullups
           then [CLR_BIT MCUCR PUD, SET_BIT PORT_TWI SCL_BIT, SET_BIT PORT_TWI SDA_BIT]
           else [CLR_BIT PORT_TWI SCL_BIT, CLR_BIT PORT_TWI SDA_BIT]) @
          [CLR_BIT TWSR TWPS0, CLR_BIT TWSR TWPS1, WRITE TWBR (divisor KHz),
           SET_BIT TWCR TWEN, SET_BIT TWCR TWIE, WRITE TWAR OurAddr,
           CLR_BIT TWCR TWEA]))"

text \<open>
  \<^verbatim>\<open>PutI2C\<close>. In C the operand of \<^verbatim>\<open><<\<close> is promoted to \<^verbatim>\<open>int\<close> and the result
  is cut to eight bits by the assignment to the \<^verbatim>\<open>uint8_t\<close> field; \<open>push_bit 1\<close>
  on an 8-bit word is the same value.
\<close>

definition PutI2C :: "8 word \<Rightarrow> 8 word \<Rightarrow> nat \<Rightarrow> bool \<Rightarrow> sys \<Rightarrow> sys \<times> hw_op list" where
  "PutI2C SlaveAddr' nBytes' Buffer' NoStop' s =
     (s\<lparr>I2C := (I2C s)\<lparr>SlaveAddr := push_bit 1 SlaveAddr',
                        nBytes := nBytes',
                        Buffer := Buffer',
                        Status := I2C_WORKING,
                        NoStop := NoStop'\<rparr>\<rparr>,
      [START_I2C])"

text \<open>\<^verbatim>\<open>GetI2C\<close>: it has no assignment to \<^verbatim>\<open>I2C.NoStop\<close>.\<close>

definition GetI2C :: "8 word \<Rightarrow> 8 word \<Rightarrow> nat \<Rightarrow> sys \<Rightarrow> sys \<times> hw_op list" where
  "GetI2C SlaveAddr' nBytes' Buffer' s =
     (s\<lparr>I2C := (I2C s)\<lparr>SlaveAddr := push_bit 1 SlaveAddr' OR 1,
                        nBytes := nBytes',
                        Buffer := Buffer',
                        Status := I2C_WORKING\<rparr>\<rparr>,
      [START_I2C])"

definition I2CBusy :: "sys \<Rightarrow> bool" where
  "I2CBusy s = (Status (I2C s) = I2C_WORKING)"

definition I2CStatus :: "sys \<Rightarrow> I2C_STATUS" where
  "I2CStatus s = Status (I2C s)"

subsection \<open>The interrupt routine\<close>

text \<open>
  \<^verbatim>\<open>ISR(TWI_vect)\<close>. Its first argument \<open>st\<close> is the local variable \<^verbatim>\<open>Status\<close> of
  line 315, the content of TWSR with the two prescaler bits masked out; its second is
  the byte that TWDR holds when the routine reads it. The branches are the cases of
  the \<^verbatim>\<open>switch\<close> in their order; a code with no case leaves the \<^verbatim>\<open>switch\<close> and the
  routine returns.
\<close>

definition ISR :: "8 word \<Rightarrow> 8 word \<Rightarrow> sys \<Rightarrow> sys \<times> hw_op list" where
  "ISR st twdr s =
     (if st = TW_START \<or> st = TW_REP_START then
        (s, [WRITE TWDR (SlaveAddr (I2C s)), CLR_BIT TWCR TWSTA])
      else if st = TW_MT_SLA_ACK \<or> st = TW_MT_DATA_ACK then
        (if nBytes (I2C s) = 0 then
           (s\<lparr>I2C := (I2C s)\<lparr>Status := I2C_COMPLETE\<rparr>\<rparr>,
            if \<not> NoStop (I2C s) then [STOP_I2C] else [])
         else
           (s\<lparr>I2C := (I2C s)\<lparr>Buffer := Buffer (I2C s) + 1,
                              nBytes := nBytes (I2C s) - 1\<rparr>\<rparr>,
            [WRITE TWDR (RAM s (Buffer (I2C s))), STEP_I2C]))
      else if st = TW_MT_SLA_NACK \<or> st = TW_MR_SLA_NACK then
        (s\<lparr>I2C := (I2C s)\<lparr>Status := I2C_NO_SLAVE_ACK\<rparr>\<rparr>, [STOP_I2C])
      else if st = TW_MT_DATA_NACK then
        (s\<lparr>I2C := (I2C s)\<lparr>Status := I2C_SLAVE_DATA_NACK\<rparr>\<rparr>, [STOP_I2C])
      else if st = TW_ARB_LOST then
        (s\<lparr>I2C := (I2C s)\<lparr>Status := I2C_ARB_LOST\<rparr>\<rparr>, [STEP_I2C])
      else if st = TW_MR_SLA_ACK then
        (if nBytes (I2C s) = 0 then
           (s\<lparr>I2C := (I2C s)\<lparr>Status := I2C_COMPLETE\<rparr>\<rparr>, [STOP_I2C])
         else
           (s, [if nBytes (I2C s) = 1 then CLR_BIT TWCR TWEA else SET_BIT TWCR TWEA,
                STEP_I2C]))
      else if st = TW_MR_DATA_ACK \<or> st = TW_MR_DATA_NACK then
        (let s1 = s\<lparr>RAM := (RAM s)(Buffer (I2C s) := twdr),
                    I2C := (I2C s)\<lparr>Buffer := Buffer (I2C s) + 1,
                                    nBytes := nBytes (I2C s) - 1\<rparr>\<rparr>;
             nack = (if nBytes (I2C s1) = 1 then [CLR_BIT TWCR TWEA] else [])
         in if nBytes (I2C s1) = 0 then
              (s1\<lparr>I2C := (I2C s1)\<lparr>Status := I2C_COMPLETE\<rparr>\<rparr>,
               [READ TWDR] @ nack @ [STOP_I2C])
            else
              (s1, [READ TWDR] @ nack @ [STEP_I2C]))
      else if st = TW_BUS_ERROR then
        (s\<lparr>I2C := (I2C s)\<lparr>Status := I2C_BUS_ERROR\<rparr>\<rparr>, [STOP_I2C])
      else (s, []))"

subsection \<open>Sequences of interrupts and calls\<close>

text \<open>
  The peripheral raises one interrupt per bus condition. An event is the pair of the
  status code and the content of TWDR at that interrupt; \<open>run\<close> passes a list of
  events to the interrupt routine one after the other and collects the accesses.
\<close>

type_synonym event = "8 word \<times> 8 word"

fun run :: "event list \<Rightarrow> sys \<Rightarrow> sys \<times> hw_op list" where
  "run [] s = (s, [])"
| "run (e # es) s =
     (let r1 = ISR (fst e) (snd e) s; r2 = run es (fst r1)
      in (fst r2, snd r1 @ snd r2))"

text \<open>
  Calls of the control functions interleaved with interrupts, as the main line and the
  interrupt context produce them.
\<close>

datatype call =
    Put "8 word" "8 word" nat bool
  | Get "8 word" "8 word" nat
  | Irq "8 word" "8 word"

fun do_call :: "call \<Rightarrow> sys \<Rightarrow> sys \<times> hw_op list" where
  "do_call (Put a n buf ns) s = PutI2C a n buf ns s"
| "do_call (Get a n buf) s = GetI2C a n buf s"
| "do_call (Irq st twdr) s = ISR st twdr s"

fun exec :: "call list \<Rightarrow> sys \<Rightarrow> sys \<times> hw_op list" where
  "exec [] s = (s, [])"
| "exec (c # cs) s =
     (let r1 = do_call c s; r2 = exec cs (fst r1)
      in (fst r2, snd r1 @ snd r2))"

text \<open>
  The acknowledge-enable bit TWEA of TWCR after a list of accesses, from its value
  before them: the driver changes it by \<^verbatim>\<open>_SET_BIT(TWCR,TWEA)\<close> and
  \<^verbatim>\<open>_CLR_BIT(TWCR,TWEA)\<close> only.
\<close>

fun TWEA_after :: "bool \<Rightarrow> hw_op list \<Rightarrow> bool" where
  "TWEA_after b [] = b"
| "TWEA_after b (x # xs) =
     TWEA_after (if x = SET_BIT TWCR TWEA then True
                 else if x = CLR_BIT TWCR TWEA then False
                 else b) xs"

text \<open>The statuses that end a transfer: all but \<^verbatim>\<open>I2C_WORKING\<close> and \<^verbatim>\<open>I2C_REP_START\<close>.\<close>

fun terminal :: "I2C_STATUS \<Rightarrow> bool" where
  "terminal I2C_COMPLETE = True"
| "terminal I2C_WORKING = False"
| "terminal I2C_NO_SLAVE_ACK = True"
| "terminal I2C_SLAVE_DATA_NACK = True"
| "terminal I2C_REP_START = False"
| "terminal I2C_ARB_LOST = True"
| "terminal I2C_BUS_ERROR = True"

text \<open>An event of the data phase of a read: a byte has arrived in TWDR.\<close>

definition data_received :: "event \<Rightarrow> bool" where
  "data_received e = (fst e = TW_MR_DATA_ACK \<or> fst e = TW_MR_DATA_NACK)"

text \<open>A state for concrete runs: the zeroed struct, as \<^verbatim>\<open>memset\<close> leaves it, and zeroed memory.\<close>

definition zero_sys :: sys where
  "zero_sys =
     \<lparr>I2C = \<lparr>SlaveAddr = 0, nBytes = 0, Buffer = 0, NoStop = False, Status = I2C_COMPLETE\<rparr>,
      RAM = (\<lambda>_. 0)\<rparr>"

section \<open>The interrupt routine, case by case\<close>

lemma ISR_START:
  "ISR TW_START d s = (s, [WRITE TWDR (SlaveAddr (I2C s)), CLR_BIT TWCR TWSTA])"
  "ISR TW_REP_START d s = (s, [WRITE TWDR (SlaveAddr (I2C s)), CLR_BIT TWCR TWSTA])"
  by (simp_all add: ISR_def TW_defs)

lemma ISR_MT_ACK:
  "ISR TW_MT_SLA_ACK d s =
     (if nBytes (I2C s) = 0
      then (s\<lparr>I2C := (I2C s)\<lparr>Status := I2C_COMPLETE\<rparr>\<rparr>,
            if NoStop (I2C s) then [] else [STOP_I2C])
      else (s\<lparr>I2C := (I2C s)\<lparr>Buffer := Buffer (I2C s) + 1,
                               nBytes := nBytes (I2C s) - 1\<rparr>\<rparr>,
            [WRITE TWDR (RAM s (Buffer (I2C s))), STEP_I2C]))"
  "ISR TW_MT_DATA_ACK d s = ISR TW_MT_SLA_ACK d s"
  by (simp_all add: ISR_def TW_defs)

lemma ISR_SLA_NACK:
  "ISR TW_MT_SLA_NACK d s = (s\<lparr>I2C := (I2C s)\<lparr>Status := I2C_NO_SLAVE_ACK\<rparr>\<rparr>, [STOP_I2C])"
  "ISR TW_MR_SLA_NACK d s = (s\<lparr>I2C := (I2C s)\<lparr>Status := I2C_NO_SLAVE_ACK\<rparr>\<rparr>, [STOP_I2C])"
  by (simp_all add: ISR_def TW_defs)

lemma ISR_MT_DATA_NACK:
  "ISR TW_MT_DATA_NACK d s = (s\<lparr>I2C := (I2C s)\<lparr>Status := I2C_SLAVE_DATA_NACK\<rparr>\<rparr>, [STOP_I2C])"
  by (simp add: ISR_def TW_defs)

lemma ISR_ARB_LOST:
  "ISR TW_ARB_LOST d s = (s\<lparr>I2C := (I2C s)\<lparr>Status := I2C_ARB_LOST\<rparr>\<rparr>, [STEP_I2C])"
  by (simp add: ISR_def TW_defs)

lemma ISR_MR_SLA_ACK:
  "ISR TW_MR_SLA_ACK d s =
     (if nBytes (I2C s) = 0
      then (s\<lparr>I2C := (I2C s)\<lparr>Status := I2C_COMPLETE\<rparr>\<rparr>, [STOP_I2C])
      else (s, [if nBytes (I2C s) = 1 then CLR_BIT TWCR TWEA else SET_BIT TWCR TWEA,
                STEP_I2C]))"
  by (simp add: ISR_def TW_defs)

lemma ISR_MR_DATA:
  "ISR TW_MR_DATA_ACK d s =
     (s\<lparr>RAM := (RAM s)(Buffer (I2C s) := d),
        I2C := (I2C s)\<lparr>Buffer := Buffer (I2C s) + 1,
                        nBytes := nBytes (I2C s) - 1,
                        Status := (if nBytes (I2C s) - 1 = 0 then I2C_COMPLETE
                                   else Status (I2C s))\<rparr>\<rparr>,
      [READ TWDR] @ (if nBytes (I2C s) - 1 = 1 then [CLR_BIT TWCR TWEA] else []) @
      [if nBytes (I2C s) - 1 = 0 then STOP_I2C else STEP_I2C])"
  "ISR TW_MR_DATA_NACK d s = ISR TW_MR_DATA_ACK d s"
  by (simp_all add: ISR_def TW_defs Let_def)

lemma ISR_BUS_ERROR:
  "ISR TW_BUS_ERROR d s = (s\<lparr>I2C := (I2C s)\<lparr>Status := I2C_BUS_ERROR\<rparr>\<rparr>, [STOP_I2C])"
  by (simp add: ISR_def TW_defs)

lemma ISR_other:
  "st \<notin> {TW_START, TW_REP_START, TW_MT_SLA_ACK, TW_MT_DATA_ACK, TW_MT_SLA_NACK,
          TW_MR_SLA_NACK, TW_MT_DATA_NACK, TW_ARB_LOST, TW_MR_SLA_ACK, TW_MR_DATA_ACK,
          TW_MR_DATA_NACK, TW_BUS_ERROR} \<Longrightarrow> ISR st d s = (s, [])"
  by (simp add: ISR_def)

lemmas ISR_cases =
  ISR_START ISR_MT_ACK ISR_SLA_NACK ISR_MT_DATA_NACK ISR_ARB_LOST ISR_MR_SLA_ACK
  ISR_MR_DATA ISR_BUS_ERROR

text \<open>
  What the routine does to the struct, whatever the code: the address byte and NoStop
  are never assigned, and the status is left alone or set to one of five values.
\<close>

lemma ISR_frame:
  "SlaveAddr (I2C (fst (ISR st d s))) = SlaveAddr (I2C s)"
  "NoStop (I2C (fst (ISR st d s))) = NoStop (I2C s)"
  by (simp_all add: ISR_def Let_def)

lemma ISR_Status:
  "Status (I2C (fst (ISR st d s))) \<in>
     {Status (I2C s), I2C_COMPLETE, I2C_NO_SLAVE_ACK, I2C_SLAVE_DATA_NACK,
      I2C_ARB_LOST, I2C_BUS_ERROR}"
  by (simp add: ISR_def Let_def)

section \<open>Addressing\<close>

lemma unat_shifted_address:
  fixes a :: "8 word"
  assumes "a < 128"
  shows "unat (push_bit 1 a) = 2 * unat a"
    and "unat (push_bit 1 a OR 1) = 2 * unat a + 1"
  using assms
  by (simp_all add: or_one_eq unat_word_ariths push_bit_eq_mult word_less_nat_alt)

lemma drop_shifted_address:
  fixes a :: "8 word"
  assumes "a < 128"
  shows "drop_bit 1 (push_bit 1 a) = a"
    and "drop_bit 1 (push_bit 1 a OR 1) = a"
proof -
  have "unat (drop_bit 1 (push_bit 1 a)) = unat (push_bit 1 a) div 2"
    by (simp add: unat_div drop_bit_eq_div del: push_bit_eq_mult)
  also have "\<dots> = unat a"
    using unat_shifted_address(1) [OF assms] by simp
  finally show "drop_bit 1 (push_bit 1 a) = a"
    by (simp only: word_unat_eq_iff)
  have "unat (drop_bit 1 (push_bit 1 a OR 1)) = unat (push_bit 1 a OR 1) div 2"
    by (simp add: unat_div drop_bit_eq_div del: push_bit_eq_mult)
  also have "\<dots> = unat a"
    using unat_shifted_address(2) [OF assms] by simp
  finally show "drop_bit 1 (push_bit 1 a OR 1) = a"
    by (simp only: word_unat_eq_iff)
qed

text \<open>
  C3. For every 7-bit slave address, PutI2C stores the address shifted left by one
  with bit 0 clear, and GetI2C stores the address shifted left by one with bit 0 set:
  the stored byte is (address << 1) | direction. Read as a number it is twice the
  address plus the direction, and its upper seven bits are the address.
\<close>

theorem slave_address_byte:
  assumes "a < 128"
  shows "SlaveAddr (I2C (fst (PutI2C a n buf ns s))) = push_bit 1 a OR 0
       \<and> \<not> bit (SlaveAddr (I2C (fst (PutI2C a n buf ns s)))) 0
       \<and> unat (SlaveAddr (I2C (fst (PutI2C a n buf ns s)))) = 2 * unat a + 0
       \<and> drop_bit 1 (SlaveAddr (I2C (fst (PutI2C a n buf ns s)))) = a
       \<and> SlaveAddr (I2C (fst (GetI2C a n buf s))) = push_bit 1 a OR 1
       \<and> bit (SlaveAddr (I2C (fst (GetI2C a n buf s)))) 0
       \<and> unat (SlaveAddr (I2C (fst (GetI2C a n buf s)))) = 2 * unat a + 1
       \<and> drop_bit 1 (SlaveAddr (I2C (fst (GetI2C a n buf s)))) = a"
proof -
  have put: "SlaveAddr (I2C (fst (PutI2C a n buf ns s))) = push_bit 1 a"
    by (simp add: PutI2C_def)
  have get: "SlaveAddr (I2C (fst (GetI2C a n buf s))) = push_bit 1 a OR 1"
    by (simp add: GetI2C_def)
  have low: "\<not> bit (push_bit 1 a) 0" "bit (push_bit 1 a OR 1) 0"
    by (simp_all add: bit_0 even_or_iff)
  show ?thesis
    unfolding put get
    using low unat_shifted_address [OF assms] drop_shifted_address [OF assms]
    by (simp del: push_bit_eq_mult)
qed

theorem slave_address_byte_witness:
  "(0x50 :: 8 word) < 128
   \<and> SlaveAddr (I2C (fst (PutI2C 0x50 1 100 False zero_sys))) = 0xA0
   \<and> SlaveAddr (I2C (fst (GetI2C 0x50 1 100 zero_sys))) = 0xA1"
proof -
  have h: "(0x50 :: 8 word) < 128" by simp
  show ?thesis
    using h slave_address_byte [OF h, of 1 100 False zero_sys]
    by simp
qed

section \<open>Single interrupts\<close>

text \<open>
  C2. At an address-ACK or data-ACK interrupt of a write: with no byte left the status
  becomes I2C_COMPLETE and STOP is issued unless NoStop is set, in which case nothing
  is issued; otherwise the byte under the cursor is written to TWDR, the cursor moves
  on by one, the count goes down by one, the bus is stepped and the status is not
  touched. A write of zero bytes is complete after the start and the address-ACK
  interrupts: the only byte written to TWDR is the address byte, and the count is 0.
\<close>

theorem write_ack_event:
  "ISR TW_MT_SLA_ACK d s =
     (if nBytes (I2C s) = 0
      then (s\<lparr>I2C := (I2C s)\<lparr>Status := I2C_COMPLETE\<rparr>\<rparr>,
            if NoStop (I2C s) then [] else [STOP_I2C])
      else (s\<lparr>I2C := (I2C s)\<lparr>Buffer := Buffer (I2C s) + 1,
                               nBytes := nBytes (I2C s) - 1\<rparr>\<rparr>,
            [WRITE TWDR (RAM s (Buffer (I2C s))), STEP_I2C]))
   \<and> ISR TW_MT_DATA_ACK d s = ISR TW_MT_SLA_ACK d s
   \<and> run [(TW_START, d0), (TW_MT_SLA_ACK, d1)] (fst (PutI2C a 0 buf ns s)) =
       (s\<lparr>I2C := \<lparr>SlaveAddr = push_bit 1 a, nBytes = 0, Buffer = buf, NoStop = ns,
                   Status = I2C_COMPLETE\<rparr>\<rparr>,
        [WRITE TWDR (push_bit 1 a), CLR_BIT TWCR TWSTA] @
        (if ns then [] else [STOP_I2C]))"
  by (simp add: ISR_cases PutI2C_def Let_def del: push_bit_eq_mult)

text \<open>
  C4. At the address-ACK interrupt of a read with no byte to read, the status becomes
  I2C_COMPLETE and STOP is the only access to the peripheral: memory, count and cursor
  stay as they are, the acknowledge-enable bit is not touched and the bus is not
  stepped. So a read submitted with a count of 0 is over after the start and the
  address-ACK interrupts, with its count still 0.
\<close>

theorem zero_byte_read:
  assumes "nBytes (I2C s) = 0"
  shows "ISR TW_MR_SLA_ACK d s = (s\<lparr>I2C := (I2C s)\<lparr>Status := I2C_COMPLETE\<rparr>\<rparr>, [STOP_I2C])
       \<and> run [(TW_START, d0), (TW_MR_SLA_ACK, d1)] (fst (GetI2C a 0 buf s')) =
           (s'\<lparr>I2C := (I2C s')\<lparr>SlaveAddr := push_bit 1 a OR 1, nBytes := 0, Buffer := buf,
                                 Status := I2C_COMPLETE\<rparr>\<rparr>,
            [WRITE TWDR (push_bit 1 a OR 1), CLR_BIT TWCR TWSTA, STOP_I2C])"
  using assms by (simp add: ISR_cases GetI2C_def Let_def del: push_bit_eq_mult)

theorem zero_byte_read_witness:
  "nBytes (I2C (fst (GetI2C 0x50 0 100 zero_sys))) = 0
   \<and> ISR TW_MR_SLA_ACK 0xFF (fst (GetI2C 0x50 0 100 zero_sys)) =
       (zero_sys\<lparr>I2C := \<lparr>SlaveAddr = 0xA1, nBytes = 0, Buffer = 100, NoStop = False,
                          Status = I2C_COMPLETE\<rparr>\<rparr>,
        [SET_MASK TWCR [TWINT, TWSTO]])"
proof -
  have h: "nBytes (I2C (fst (GetI2C 0x50 0 100 zero_sys))) = 0"
    by (simp add: GetI2C_def)
  show ?thesis
    using h zero_byte_read [OF h, of "0xFF" 0 0 0 0 zero_sys]
    by (simp add: GetI2C_def zero_sys_def STOP_I2C_def)
qed

text \<open>
  C5. At an address-NACK interrupt, of a write or of a read, the status becomes
  I2C_NO_SLAVE_ACK and STOP is the only access to the peripheral: TWDR is neither
  written nor read, and memory, count and cursor stay as they are. A transfer whose
  address is not acknowledged therefore ends with the count and the cursor it was
  submitted with.
\<close>

theorem address_nack:
  "ISR TW_MT_SLA_NACK d s = (s\<lparr>I2C := (I2C s)\<lparr>Status := I2C_NO_SLAVE_ACK\<rparr>\<rparr>, [STOP_I2C])
   \<and> ISR TW_MR_SLA_NACK d s = (s\<lparr>I2C := (I2C s)\<lparr>Status := I2C_NO_SLAVE_ACK\<rparr>\<rparr>, [STOP_I2C])
   \<and> run [(TW_START, d0), (TW_MT_SLA_NACK, d1)] (fst (PutI2C a n buf ns s)) =
       (s\<lparr>I2C := \<lparr>SlaveAddr = push_bit 1 a, nBytes = n, Buffer = buf, NoStop = ns,
                   Status = I2C_NO_SLAVE_ACK\<rparr>\<rparr>,
        [WRITE TWDR (push_bit 1 a), CLR_BIT TWCR TWSTA, STOP_I2C])
   \<and> run [(TW_START, d0), (TW_MR_SLA_NACK, d1)] (fst (GetI2C a n buf s)) =
       (s\<lparr>I2C := (I2C s)\<lparr>SlaveAddr := push_bit 1 a OR 1, nBytes := n, Buffer := buf,
                          Status := I2C_NO_SLAVE_ACK\<rparr>\<rparr>,
        [WRITE TWDR (push_bit 1 a OR 1), CLR_BIT TWCR TWSTA, STOP_I2C])"
  by (simp add: ISR_cases PutI2C_def GetI2C_def Let_def del: push_bit_eq_mult)

text \<open>
  C6. At an arbitration-lost interrupt the status becomes I2C_ARB_LOST and the only
  access to the peripheral is the step: no STOP is issued, and count, cursor and
  memory stay as they are.
\<close>

theorem arbitration_lost:
  "ISR TW_ARB_LOST d s = (s\<lparr>I2C := (I2C s)\<lparr>Status := I2C_ARB_LOST\<rparr>\<rparr>, [STEP_I2C])
   \<and> STOP_I2C \<notin> set (snd (ISR TW_ARB_LOST d s))
   \<and> nBytes (I2C (fst (ISR TW_ARB_LOST d s))) = nBytes (I2C s)
   \<and> Buffer (I2C (fst (ISR TW_ARB_LOST d s))) = Buffer (I2C s)"
  by (simp add: ISR_cases macro_defs)

text \<open>
  C10. For a status code that is none of the twelve codes the switch has a case for
  (every slave-mode code and the no-information code among them), the interrupt
  routine returns with the struct and the memory as they were and without an access
  to the peripheral.
\<close>

theorem unhandled_code:
  assumes "st \<notin> {TW_START, TW_REP_START, TW_MT_SLA_ACK, TW_MT_DATA_ACK, TW_MT_SLA_NACK,
                  TW_MR_SLA_NACK, TW_MT_DATA_NACK, TW_ARB_LOST, TW_MR_SLA_ACK,
                  TW_MR_DATA_ACK, TW_MR_DATA_NACK, TW_BUS_ERROR}"
  shows "ISR st d s = (s, [])"
  using assms by (rule ISR_other)

theorem unhandled_code_witness:
  "TW_NO_INFO \<notin> {TW_START, TW_REP_START, TW_MT_SLA_ACK, TW_MT_DATA_ACK, TW_MT_SLA_NACK,
                  TW_MR_SLA_NACK, TW_MT_DATA_NACK, TW_ARB_LOST, TW_MR_SLA_ACK,
                  TW_MR_DATA_ACK, TW_MR_DATA_NACK, TW_BUS_ERROR}
   \<and> ISR TW_NO_INFO 0 (fst (PutI2C 0x50 1 100 False zero_sys)) =
       (fst (PutI2C 0x50 1 100 False zero_sys), [])
   \<and> TW_SR_SLA_ACK \<notin> {TW_START, TW_REP_START, TW_MT_SLA_ACK, TW_MT_DATA_ACK, TW_MT_SLA_NACK,
                  TW_MR_SLA_NACK, TW_MT_DATA_NACK, TW_ARB_LOST, TW_MR_SLA_ACK,
                  TW_MR_DATA_ACK, TW_MR_DATA_NACK, TW_BUS_ERROR}
   \<and> ISR TW_SR_SLA_ACK 0 (fst (PutI2C 0x50 1 100 False zero_sys)) =
       (fst (PutI2C 0x50 1 100 False zero_sys), [])"
proof -
  have h1: "TW_NO_INFO \<notin> {TW_START, TW_REP_START, TW_MT_SLA_ACK, TW_MT_DATA_ACK,
                  TW_MT_SLA_NACK, TW_MR_SLA_NACK, TW_MT_DATA_NACK, TW_ARB_LOST,
                  TW_MR_SLA_ACK, TW_MR_DATA_ACK, TW_MR_DATA_NACK, TW_BUS_ERROR}"
    by (simp add: TW_defs)
  have h2: "TW_SR_SLA_ACK \<notin> {TW_START, TW_REP_START, TW_MT_SLA_ACK, TW_MT_DATA_ACK,
                  TW_MT_SLA_NACK, TW_MR_SLA_NACK, TW_MT_DATA_NACK, TW_ARB_LOST,
                  TW_MR_SLA_ACK, TW_MR_DATA_ACK, TW_MR_DATA_NACK, TW_BUS_ERROR}"
    by (simp add: TW_defs)
  show ?thesis
    using h1 h2 unhandled_code [OF h1] unhandled_code [OF h2]
    by simp
qed

section \<open>Sequences of interrupts\<close>

lemma run_append:
  "run (xs @ ys) s = (fst (run ys (fst (run xs s))), snd (run xs s) @ snd (run ys (fst (run xs s))))"
  by (induction xs arbitrary: s) (simp_all add: Let_def)

lemma run_frame:
  "SlaveAddr (I2C (fst (run es s))) = SlaveAddr (I2C s)"
  "NoStop (I2C (fst (run es s))) = NoStop (I2C s)"
  by (induction es arbitrary: s) (simp_all add: Let_def ISR_frame)

lemma ISR_terminal:
  "terminal (Status (I2C s)) \<Longrightarrow> terminal (Status (I2C (fst (ISR st d s))))"
  using ISR_Status [of st d s] by auto

lemma ISR_working:
  "Status (I2C s) = I2C_WORKING \<Longrightarrow>
     Status (I2C (fst (ISR st d s))) = I2C_WORKING \<or> terminal (Status (I2C (fst (ISR st d s))))"
  using ISR_Status [of st d s] by auto

lemma run_terminal:
  "terminal (Status (I2C s)) \<Longrightarrow> terminal (Status (I2C (fst (run es s))))"
  by (induction es arbitrary: s) (simp_all add: Let_def ISR_terminal)

lemma run_working:
  "Status (I2C s) = I2C_WORKING \<Longrightarrow>
     Status (I2C (fst (run es s))) = I2C_WORKING \<or> terminal (Status (I2C (fst (run es s))))"
proof (induction es arbitrary: s)
  case Nil
  then show ?case by simp
next
  case (Cons e es)
  from ISR_working [OF Cons.prems, of "fst e" "snd e"] show ?case
  proof
    assume "Status (I2C (fst (ISR (fst e) (snd e) s))) = I2C_WORKING"
    then show ?thesis using Cons.IH by (simp add: Let_def)
  next
    assume "terminal (Status (I2C (fst (ISR (fst e) (snd e) s))))"
    then show ?thesis using run_terminal by (simp add: Let_def)
  qed
qed

lemma run_Status:
  "Status (I2C (fst (run es s))) \<in>
     {Status (I2C s), I2C_COMPLETE, I2C_NO_SLAVE_ACK, I2C_SLAVE_DATA_NACK,
      I2C_ARB_LOST, I2C_BUS_ERROR}"
proof (induction es arbitrary: s)
  case Nil
  show ?case by simp
next
  case (Cons e es)
  show ?case
    using Cons.IH [of "fst (ISR (fst e) (snd e) s)"] ISR_Status [of "fst e" "snd e" s]
    by (auto simp add: Let_def)
qed

lemma busy_until_terminal:
  assumes "Status (I2C s) = I2C_WORKING"
  shows "I2CBusy (fst (run es s)) =
           (\<nexists>k. k \<le> length es \<and> terminal (I2CStatus (fst (run (take k es) s))))"
proof
  assume busy: "I2CBusy (fst (run es s))"
  show "\<nexists>k. k \<le> length es \<and> terminal (I2CStatus (fst (run (take k es) s)))"
  proof
    assume "\<exists>k. k \<le> length es \<and> terminal (I2CStatus (fst (run (take k es) s)))"
    then obtain k where "terminal (Status (I2C (fst (run (take k es) s))))"
      by (auto simp add: I2CStatus_def)
    then have "terminal (Status (I2C (fst (run (drop k es) (fst (run (take k es) s))))))"
      by (rule run_terminal)
    then have "terminal (Status (I2C (fst (run (take k es @ drop k es) s))))"
      by (simp only: run_append fst_conv)
    with busy show False
      by (simp add: I2CBusy_def)
  qed
next
  assume "\<nexists>k. k \<le> length es \<and> terminal (I2CStatus (fst (run (take k es) s)))"
  then have "\<not> terminal (I2CStatus (fst (run (take (length es) es) s)))"
    by blast
  with run_working [OF assms, of es] show "I2CBusy (fst (run es s))"
    by (simp add: I2CBusy_def I2CStatus_def)
qed

lemma do_call_Status:
  "Status (I2C s) \<noteq> I2C_REP_START \<Longrightarrow> Status (I2C (fst (do_call c s))) \<noteq> I2C_REP_START"
proof (cases c)
  case (Irq st d)
  assume "Status (I2C s) \<noteq> I2C_REP_START"
  with ISR_Status [of st d s] Irq show ?thesis by auto
qed (simp_all add: PutI2C_def GetI2C_def)

lemma exec_Status:
  "Status (I2C s) \<noteq> I2C_REP_START \<Longrightarrow> Status (I2C (fst (exec cs s))) \<noteq> I2C_REP_START"
  by (induction cs arbitrary: s) (simp_all add: Let_def do_call_Status)

text \<open>
  C8. No interrupt assigns I2C_REP_START to the status: after an interrupt, and after
  any sequence of interrupts, the status is the one before or one of I2C_COMPLETE,
  I2C_NO_SLAVE_ACK, I2C_SLAVE_DATA_NACK, I2C_ARB_LOST and I2C_BUS_ERROR. So once the
  driver is initialised, I2CStatus never returns I2C_REP_START, whatever calls of
  PutI2C and GetI2C and whatever interrupts follow.
\<close>

theorem never_rep_start:
  "I2CStatus (fst (ISR st d s)) \<in>
     {I2CStatus s, I2C_COMPLETE, I2C_NO_SLAVE_ACK, I2C_SLAVE_DATA_NACK,
      I2C_ARB_LOST, I2C_BUS_ERROR}
   \<and> I2CStatus (fst (run es s)) \<in>
     {I2CStatus s, I2C_COMPLETE, I2C_NO_SLAVE_ACK, I2C_SLAVE_DATA_NACK,
      I2C_ARB_LOST, I2C_BUS_ERROR}
   \<and> I2CStatus (fst (run es (fst (PutI2C a n buf ns s)))) \<noteq> I2C_REP_START
   \<and> I2CStatus (fst (run es (fst (GetI2C a n buf s)))) \<noteq> I2C_REP_START
   \<and> I2CStatus (fst (exec cs (fst (I2CInit divisor KHz OurAddr pullups s)))) \<noteq> I2C_REP_START"
proof -
  have put: "Status (I2C (fst (PutI2C a n buf ns s))) = I2C_WORKING"
    by (simp add: PutI2C_def)
  have get: "Status (I2C (fst (GetI2C a n buf s))) = I2C_WORKING"
    by (simp add: GetI2C_def)
  have init: "Status (I2C (fst (I2CInit divisor KHz OurAddr pullups s))) \<noteq> I2C_REP_START"
    by (simp add: I2CInit_def)
  have "Status (I2C (fst (run es (fst (PutI2C a n buf ns s))))) \<noteq> I2C_REP_START"
    using run_Status [of es "fst (PutI2C a n buf ns s)"] put by auto
  moreover have "Status (I2C (fst (run es (fst (GetI2C a n buf s))))) \<noteq> I2C_REP_START"
    using run_Status [of es "fst (GetI2C a n buf s)"] get by auto
  ultimately show ?thesis
    using ISR_Status [of st d s] run_Status [of es s] exec_Status [OF init, of cs]
    by (simp add: I2CStatus_def)
qed

text \<open>
  C7. PutI2C and GetI2C set the status to I2C_WORKING, so I2CBusy holds after each of
  them, and I2CInit sets it to I2C_COMPLETE. After a submission and any sequence of
  interrupts, I2CBusy holds exactly as long as no interrupt of the sequence has left
  the status at a terminal value; the interrupt routine is the only one to assign
  such a value after the submission.
\<close>

theorem busy_after_submission:
  "I2CStatus (fst (PutI2C a n buf ns s)) = I2C_WORKING
   \<and> I2CStatus (fst (GetI2C a n buf s)) = I2C_WORKING
   \<and> I2CBusy (fst (PutI2C a n buf ns s))
   \<and> I2CBusy (fst (GetI2C a n buf s))
   \<and> I2CStatus (fst (I2CInit divisor KHz OurAddr pullups s)) = I2C_COMPLETE
   \<and> \<not> I2CBusy (fst (I2CInit divisor KHz OurAddr pullups s))
   \<and> I2CBusy (fst (run es (fst (PutI2C a n buf ns s)))) =
       (\<nexists>k. k \<le> length es
            \<and> terminal (I2CStatus (fst (run (take k es) (fst (PutI2C a n buf ns s))))))
   \<and> I2CBusy (fst (run es (fst (GetI2C a n buf s)))) =
       (\<nexists>k. k \<le> length es
            \<and> terminal (I2CStatus (fst (run (take k es) (fst (GetI2C a n buf s))))))"
proof -
  have put: "Status (I2C (fst (PutI2C a n buf ns s))) = I2C_WORKING"
    by (simp add: PutI2C_def)
  have get: "Status (I2C (fst (GetI2C a n buf s))) = I2C_WORKING"
    by (simp add: GetI2C_def)
  have init: "Status (I2C (fst (I2CInit divisor KHz OurAddr pullups s))) = I2C_COMPLETE"
    by (simp add: I2CInit_def)
  show ?thesis
    using put get init busy_until_terminal [OF put, of es] busy_until_terminal [OF get, of es]
    by (simp add: I2CBusy_def I2CStatus_def)
qed

section \<open>The data phase of a read\<close>

lemma count_down:
  fixes w :: "8 word"
  assumes "w \<noteq> 0"
  shows "unat (w - 1) = unat w - 1"
    and "(w = 1) = (unat w = 1)"
    and "(w = 2) = (unat w = 2)"
    and "0 < unat w"
proof -
  show "unat (w - 1) = unat w - 1"
    using assms by (rule unat_minus_one)
  show "(w = 1) = (unat w = 1)"
    by (simp add: word_unat_eq_iff)
  show "(w = 2) = (unat w = 2)"
    by (simp add: word_unat_eq_iff)
  show "0 < unat w"
    using assms by (simp add: unat_gt_0)
qed

lemma TWEA_after_append:
  "TWEA_after b (xs @ ys) = TWEA_after (TWEA_after b xs) ys"
  by (induction xs arbitrary: b) simp_all

lemma ISR_data:
  assumes "data_received e"
  shows "ISR (fst e) (snd e) s = ISR TW_MR_DATA_ACK (snd e) s"
  using assms by (auto simp add: data_received_def ISR_MR_DATA(2))

lemma run_data_store:
  assumes "list_all data_received es"
  shows "RAM (fst (run es s)) =
           (\<lambda>x. if Buffer (I2C s) \<le> x \<and> x < Buffer (I2C s) + length es
                then snd (es ! (x - Buffer (I2C s))) else RAM s x)
       \<and> Buffer (I2C (fst (run es s))) = Buffer (I2C s) + length es"
  using assms
proof (induction es arbitrary: s)
  case Nil
  show ?case by (auto simp add: fun_eq_iff)
next
  case (Cons e es)
  let ?s1 = "fst (ISR (fst e) (snd e) s)"
  have e: "data_received e" and es: "list_all data_received es"
    using Cons.prems by simp_all
  have s1: "RAM ?s1 = (RAM s)(Buffer (I2C s) := snd e)"
           "Buffer (I2C ?s1) = Buffer (I2C s) + 1"
    by (simp_all add: ISR_data [OF e] ISR_MR_DATA(1))
  from Cons.IH [OF es, of ?s1] show ?case
    by (auto simp add: Let_def s1 fun_eq_iff nth_Cons')
qed

lemma run_data_partial:
  assumes "list_all data_received es" and "length es < unat (nBytes (I2C s))"
  shows "Status (I2C (fst (run es s))) = Status (I2C s)
       \<and> unat (nBytes (I2C (fst (run es s)))) = unat (nBytes (I2C s)) - length es
       \<and> STOP_I2C \<notin> set (snd (run es s))
       \<and> TWEA_after b (snd (run es s)) =
           (if es \<noteq> [] \<and> Suc (length es) = unat (nBytes (I2C s)) then False else b)"
  using assms
proof (induction es arbitrary: s b)
  case Nil
  show ?case by simp
next
  case (Cons e es)
  let ?s1 = "fst (ISR (fst e) (snd e) s)"
  let ?o1 = "snd (ISR (fst e) (snd e) s)"
  let ?r = "unat (nBytes (I2C s))"
  have e: "data_received e" and es: "list_all data_received es"
    using Cons.prems by simp_all
  have r: "Suc (length es) < ?r"
    using Cons.prems by simp
  then have nz: "nBytes (I2C s) \<noteq> 0"
    by (auto simp add: unat_eq_0 [symmetric] simp del: unat_eq_0)
  note cd = count_down [OF nz]
  have s1: "Status (I2C ?s1) = Status (I2C s)" "unat (nBytes (I2C ?s1)) = ?r - 1"
    using r by (simp_all add: ISR_data [OF e] ISR_MR_DATA(1) cd)
  have o1: "?o1 = [READ TWDR] @ (if ?r = 2 then [CLR_BIT TWCR TWEA] else []) @ [STEP_I2C]"
    using r by (simp add: ISR_data [OF e] ISR_MR_DATA(1) cd)
  have len: "length es < unat (nBytes (I2C ?s1))"
    using r s1 by simp
  have b1: "TWEA_after b ?o1 = (if ?r = 2 then False else b)"
    by (simp add: o1 macro_defs)
  have unfold: "fst (run (e # es) s) = fst (run es ?s1)"
               "snd (run (e # es) s) = ?o1 @ snd (run es ?s1)"
    by (simp_all add: Let_def)
  note ih = Cons.IH [OF es len, of "TWEA_after b ?o1"]
  have "Status (I2C (fst (run (e # es) s))) = Status (I2C s)"
    using ih s1 by (simp only: unfold)
  moreover have "unat (nBytes (I2C (fst (run (e # es) s)))) = ?r - length (e # es)"
    using ih s1 by (simp only: unfold) simp
  moreover have "STOP_I2C \<notin> set (snd (run (e # es) s))"
    using ih by (simp only: unfold) (simp add: o1 macro_defs)
  moreover have "TWEA_after b (snd (run (e # es) s)) =
                   (if e # es \<noteq> [] \<and> Suc (length (e # es)) = ?r then False else b)"
  proof (cases "es = []")
    case True
    then show ?thesis
      by (simp only: unfold TWEA_after_append) (auto simp add: b1)
  next
    case False
    then have "0 < length es" by simp
    with r have "?r \<noteq> 2" "(Suc (length es) = ?r - 1) = (Suc (Suc (length es)) = ?r)"
      by auto
    with ih False show ?thesis
      by (simp only: unfold TWEA_after_append s1 b1) simp
  qed
  ultimately show ?case by blast
qed

lemma run_data_complete:
  assumes "list_all data_received es" and "es \<noteq> []"
    and "length es = unat (nBytes (I2C s))"
  shows "Status (I2C (fst (run es s))) = I2C_COMPLETE
       \<and> nBytes (I2C (fst (run es s))) = 0
       \<and> snd (run es s) =
           (if length es = 1 then [READ TWDR, STOP_I2C]
            else concat (replicate (length es - 2) [READ TWDR, STEP_I2C]) @
                 [READ TWDR, CLR_BIT TWCR TWEA, STEP_I2C, READ TWDR, STOP_I2C])"
  using assms
proof (induction es arbitrary: s)
  case Nil
  then show ?case by simp
next
  case (Cons e es)
  let ?s1 = "fst (ISR (fst e) (snd e) s)"
  let ?o1 = "snd (ISR (fst e) (snd e) s)"
  let ?r = "unat (nBytes (I2C s))"
  have e: "data_received e" and es: "list_all data_received es"
    using Cons.prems by simp_all
  have r: "?r = Suc (length es)"
    using Cons.prems by simp
  then have nz: "nBytes (I2C s) \<noteq> 0"
    by (auto simp add: unat_eq_0 [symmetric] simp del: unat_eq_0)
  note cd = count_down [OF nz]
  have unfold: "fst (run (e # es) s) = fst (run es ?s1)"
               "snd (run (e # es) s) = ?o1 @ snd (run es ?s1)"
    by (simp_all add: Let_def)
  show ?case
  proof (cases "es = []")
    case True
    with r have "nBytes (I2C s) = 1"
      by (simp add: cd)
    with True show ?thesis
      by (simp add: Let_def ISR_data [OF e] ISR_MR_DATA(1))
  next
    case False
    then have two: "2 \<le> ?r" "nBytes (I2C s) \<noteq> 1"
      using r by (simp_all add: cd Suc_le_eq)
    have s1: "unat (nBytes (I2C ?s1)) = length es"
      using r by (simp add: ISR_data [OF e] ISR_MR_DATA(1) cd)
    have o1: "?o1 = [READ TWDR] @ (if length es = 1 then [CLR_BIT TWCR TWEA] else []) @ [STEP_I2C]"
      using r two by (simp add: ISR_data [OF e] ISR_MR_DATA(1) cd)
    note ih = Cons.IH [OF es False s1 [symmetric]]
    have "snd (run (e # es) s) =
            concat (replicate (length (e # es) - 2) [READ TWDR, STEP_I2C]) @
            [READ TWDR, CLR_BIT TWCR TWEA, STEP_I2C, READ TWDR, STOP_I2C]"
    proof (cases "length es = 1")
      case True
      with ih show ?thesis
        by (simp only: unfold o1) simp
    next
      case False
      with \<open>es \<noteq> []\<close> obtain m where m: "length es = Suc (Suc m)"
        by (cases es; cases "tl es") auto
      with ih show ?thesis
        by (simp only: unfold o1) simp
    qed
    moreover have "length (e # es) \<noteq> 1"
      using False by simp
    ultimately show ?thesis
      using ih by (simp only: unfold) simp
  qed
qed

lemma read_prefix:
  assumes "n \<noteq> 0"
  shows "run ((TW_START, d0) # (TW_MR_SLA_ACK, d1) # xs) (fst (GetI2C a n buf s)) =
           (fst (run xs (fst (GetI2C a n buf s))),
            [WRITE TWDR (push_bit 1 a OR 1), CLR_BIT TWCR TWSTA,
             if n = 1 then CLR_BIT TWCR TWEA else SET_BIT TWCR TWEA, STEP_I2C] @
            snd (run xs (fst (GetI2C a n buf s))))"
    and "run ((TW_REP_START, d0) # (TW_MR_SLA_ACK, d1) # xs) (fst (GetI2C a n buf s)) =
           (fst (run xs (fst (GetI2C a n buf s))),
            [WRITE TWDR (push_bit 1 a OR 1), CLR_BIT TWCR TWSTA,
             if n = 1 then CLR_BIT TWCR TWEA else SET_BIT TWCR TWEA, STEP_I2C] @
            snd (run xs (fst (GetI2C a n buf s))))"
  using assms by (simp_all add: Let_def ISR_cases GetI2C_def del: push_bit_eq_mult)

text \<open>
  C1. A read of n > 0 bytes, run from GetI2C through the start interrupt, the
  address-ACK interrupt and n data interrupts: the bytes that arrive are in the
  caller's buffer in their order of arrival, every other cell of memory is as before,
  and the transfer is complete with no byte left. Before each byte but the last the
  acknowledge-enable bit is set, before the last one it is clear: the address-ACK
  interrupt clears it when one byte is left and sets it otherwise, and a data
  interrupt clears it when, after storing the byte and counting down, one byte is
  left. The accesses of the whole read to the peripheral are given in full.
\<close>

theorem read_in_order_nack_last:
  assumes "n \<noteq> 0" and "length es = unat n" and "list_all data_received es"
  shows "RAM (fst (run ((TW_START, d0) # (TW_MR_SLA_ACK, d1) # es) (fst (GetI2C a n buf s)))) =
           (\<lambda>x. if buf \<le> x \<and> x < buf + unat n then snd (es ! (x - buf)) else RAM s x)
       \<and> I2C (fst (run ((TW_START, d0) # (TW_MR_SLA_ACK, d1) # es) (fst (GetI2C a n buf s)))) =
           (I2C s)\<lparr>SlaveAddr := push_bit 1 a OR 1, nBytes := 0, Buffer := buf + unat n,
                    Status := I2C_COMPLETE\<rparr>
       \<and> (\<forall>k<unat n.
             TWEA_after b (snd (run ((TW_START, d0) # (TW_MR_SLA_ACK, d1) # take k es)
                                    (fst (GetI2C a n buf s)))) = (k + 1 < unat n))
       \<and> snd (run ((TW_START, d0) # (TW_MR_SLA_ACK, d1) # es) (fst (GetI2C a n buf s))) =
           [WRITE TWDR (push_bit 1 a OR 1), CLR_BIT TWCR TWSTA] @
           (if n = 1 then [CLR_BIT TWCR TWEA, STEP_I2C, READ TWDR, STOP_I2C]
            else [SET_BIT TWCR TWEA, STEP_I2C] @
                 concat (replicate (unat n - 2) [READ TWDR, STEP_I2C]) @
                 [READ TWDR, CLR_BIT TWCR TWEA, STEP_I2C, READ TWDR, STOP_I2C])
       \<and> snd (ISR TW_MR_SLA_ACK d1 (fst (GetI2C a n buf s))) =
           [if n = 1 then CLR_BIT TWCR TWEA else SET_BIT TWCR TWEA, STEP_I2C]
       \<and> ISR TW_MR_DATA_ACK d s' =
           (s'\<lparr>RAM := (RAM s')(Buffer (I2C s') := d),
               I2C := (I2C s')\<lparr>Buffer := Buffer (I2C s') + 1,
                                nBytes := nBytes (I2C s') - 1,
                                Status := (if nBytes (I2C s') - 1 = 0 then I2C_COMPLETE
                                           else Status (I2C s'))\<rparr>\<rparr>,
            [READ TWDR] @ (if nBytes (I2C s') - 1 = 1 then [CLR_BIT TWCR TWEA] else []) @
            [if nBytes (I2C s') - 1 = 0 then STOP_I2C else STEP_I2C])
       \<and> ISR TW_MR_DATA_NACK d s' = ISR TW_MR_DATA_ACK d s'"
proof -
  let ?s1 = "fst (GetI2C a n buf s)"
  let ?full = "run ((TW_START, d0) # (TW_MR_SLA_ACK, d1) # es) ?s1"
  have s1: "nBytes (I2C ?s1) = n" "Buffer (I2C ?s1) = buf" "RAM ?s1 = RAM s"
           "NoStop (I2C ?s1) = NoStop (I2C s)" "SlaveAddr (I2C ?s1) = push_bit 1 a OR 1"
    by (simp_all add: GetI2C_def del: push_bit_eq_mult)
  note cd = count_down [OF assms(1)]
  have ne: "es \<noteq> []"
    using assms(2) cd(4) by auto
  have len: "length es = unat (nBytes (I2C ?s1))"
    using assms(2) by (simp only: s1)
  note store = run_data_store [OF assms(3), of ?s1]
  note complete = run_data_complete [OF assms(3) ne len]
  have ram: "RAM (fst ?full) =
               (\<lambda>x. if buf \<le> x \<and> x < buf + unat n then snd (es ! (x - buf)) else RAM s x)"
    using store by (simp only: read_prefix(1) [OF assms(1)] fst_conv s1 assms(2))
  have desc: "I2C (fst ?full) =
                (I2C s)\<lparr>SlaveAddr := push_bit 1 a OR 1, nBytes := 0, Buffer := buf + unat n,
                         Status := I2C_COMPLETE\<rparr>"
  proof (rule I2C_t.equality)
    show "SlaveAddr (I2C (fst ?full)) =
            SlaveAddr ((I2C s)\<lparr>SlaveAddr := push_bit 1 a OR 1, nBytes := 0,
                                Buffer := buf + unat n, Status := I2C_COMPLETE\<rparr>)"
      by (simp add: run_frame s1 del: run.simps push_bit_eq_mult)
    show "NoStop (I2C (fst ?full)) =
            NoStop ((I2C s)\<lparr>SlaveAddr := push_bit 1 a OR 1, nBytes := 0,
                             Buffer := buf + unat n, Status := I2C_COMPLETE\<rparr>)"
      by (simp add: run_frame s1 del: run.simps)
    show "nBytes (I2C (fst ?full)) =
            nBytes ((I2C s)\<lparr>SlaveAddr := push_bit 1 a OR 1, nBytes := 0,
                             Buffer := buf + unat n, Status := I2C_COMPLETE\<rparr>)"
      using complete by (simp add: read_prefix(1) [OF assms(1)] del: run.simps)
    show "Status (I2C (fst ?full)) =
            Status ((I2C s)\<lparr>SlaveAddr := push_bit 1 a OR 1, nBytes := 0,
                             Buffer := buf + unat n, Status := I2C_COMPLETE\<rparr>)"
      using complete by (simp add: read_prefix(1) [OF assms(1)] del: run.simps)
    show "Buffer (I2C (fst ?full)) =
            Buffer ((I2C s)\<lparr>SlaveAddr := push_bit 1 a OR 1, nBytes := 0,
                             Buffer := buf + unat n, Status := I2C_COMPLETE\<rparr>)"
      using store by (simp add: read_prefix(1) [OF assms(1)] s1 assms(2) del: run.simps)
  qed simp
  have twea: "\<forall>k<unat n.
                TWEA_after b (snd (run ((TW_START, d0) # (TW_MR_SLA_ACK, d1) # take k es) ?s1)) =
                  (k + 1 < unat n)"
  proof (intro allI impI)
    fix k
    assume k: "k < unat n"
    have all: "list_all data_received (take k es)"
      using assms(3) by (auto simp add: list_all_iff dest: in_set_takeD)
    have lt: "length (take k es) < unat (nBytes (I2C ?s1))"
      using k assms(2) by (simp add: s1)
    have empty: "(take k es \<noteq> []) = (k \<noteq> 0)"
      using ne by (cases k; cases es) simp_all
    let ?b = "TWEA_after b [WRITE TWDR (push_bit 1 a OR 1), CLR_BIT TWCR TWSTA,
                            if n = 1 then CLR_BIT TWCR TWEA else SET_BIT TWCR TWEA, STEP_I2C]"
    have b: "?b = (unat n \<noteq> 1)"
      by (simp add: macro_defs cd del: push_bit_eq_mult)
    from run_data_partial [OF all lt, of ?b]
    have "TWEA_after ?b (snd (run (take k es) ?s1)) =
            (if k \<noteq> 0 \<and> Suc k = unat n then False else unat n \<noteq> 1)"
      using k assms(2) by (simp only: empty s1 b length_take min.absorb2 less_imp_le)
    also have "\<dots> = (k + 1 < unat n)"
      using k by auto
    finally show "TWEA_after b (snd (run ((TW_START, d0) # (TW_MR_SLA_ACK, d1) # take k es) ?s1)) =
                    (k + 1 < unat n)"
      by (simp only: read_prefix(1) [OF assms(1)] snd_conv TWEA_after_append)
  qed
  have ops: "snd ?full =
           [WRITE TWDR (push_bit 1 a OR 1), CLR_BIT TWCR TWSTA] @
           (if n = 1 then [CLR_BIT TWCR TWEA, STEP_I2C, READ TWDR, STOP_I2C]
            else [SET_BIT TWCR TWEA, STEP_I2C] @
                 concat (replicate (unat n - 2) [READ TWDR, STEP_I2C]) @
                 [READ TWDR, CLR_BIT TWCR TWEA, STEP_I2C, READ TWDR, STOP_I2C])"
    using complete
    by (simp only: read_prefix(1) [OF assms(1)] snd_conv assms(2) cd) simp
  have ack: "snd (ISR TW_MR_SLA_ACK d1 ?s1) =
               [if n = 1 then CLR_BIT TWCR TWEA else SET_BIT TWCR TWEA, STEP_I2C]"
    using assms(1) by (simp add: ISR_MR_SLA_ACK s1)
  show ?thesis
    using ram desc twea ops ack ISR_MR_DATA [of d s'] by blast
qed

theorem read_in_order_nack_last_witness:
  "(3 :: 8 word) \<noteq> 0
   \<and> length [(TW_MR_DATA_ACK, 0x11), (TW_MR_DATA_ACK, 0x22), (TW_MR_DATA_NACK, 0x33 :: 8 word)] =
       unat (3 :: 8 word)
   \<and> list_all data_received
       [(TW_MR_DATA_ACK, 0x11), (TW_MR_DATA_ACK, 0x22), (TW_MR_DATA_NACK, 0x33)]
   \<and> map (RAM (fst (run [(TW_START, 0), (TW_MR_SLA_ACK, 0), (TW_MR_DATA_ACK, 0x11),
                          (TW_MR_DATA_ACK, 0x22), (TW_MR_DATA_NACK, 0x33)]
                         (fst (GetI2C 0x50 3 100 zero_sys)))))
          [99, 100, 101, 102, 103] = [0, 0x11, 0x22, 0x33, 0]
   \<and> TWEA_after False (snd (run [(TW_START, 0), (TW_MR_SLA_ACK, 0)]
                                 (fst (GetI2C 0x50 3 100 zero_sys))))
   \<and> TWEA_after False (snd (run [(TW_START, 0), (TW_MR_SLA_ACK, 0), (TW_MR_DATA_ACK, 0x11)]
                                 (fst (GetI2C 0x50 3 100 zero_sys))))
   \<and> \<not> TWEA_after False (snd (run [(TW_START, 0), (TW_MR_SLA_ACK, 0), (TW_MR_DATA_ACK, 0x11),
                                    (TW_MR_DATA_ACK, 0x22)]
                                   (fst (GetI2C 0x50 3 100 zero_sys))))
   \<and> snd (run [(TW_START, 0), (TW_MR_SLA_ACK, 0), (TW_MR_DATA_ACK, 0x11),
               (TW_MR_DATA_ACK, 0x22), (TW_MR_DATA_NACK, 0x33)]
              (fst (GetI2C 0x50 3 100 zero_sys))) =
       [WRITE TWDR 0xA1, CLR_BIT TWCR TWSTA, SET_BIT TWCR TWEA, STEP_I2C,
        READ TWDR, STEP_I2C, READ TWDR, CLR_BIT TWCR TWEA, STEP_I2C, READ TWDR, STOP_I2C]"
proof -
  let ?es = "[(TW_MR_DATA_ACK, 0x11), (TW_MR_DATA_ACK, 0x22), (TW_MR_DATA_NACK, 0x33 :: 8 word)]"
  have h1: "(3 :: 8 word) \<noteq> 0" by simp
  have h2: "length ?es = unat (3 :: 8 word)" by simp
  have h3: "list_all data_received ?es" by (simp add: data_received_def)
  note inst = read_in_order_nack_last [OF h1 h2 h3, of 0 0 "0x50" 100 zero_sys False 0 zero_sys]
  have ram: "map (RAM (fst (run ((TW_START, 0) # (TW_MR_SLA_ACK, 0) # ?es)
                                (fst (GetI2C 0x50 3 100 zero_sys)))))
                 [99, 100, 101, 102, 103] = [0, 0x11, 0x22, 0x33, 0]"
    by (simp only: inst [THEN conjunct1]) (simp add: zero_sys_def)
  have twea: "\<forall>k<3. TWEA_after False
                       (snd (run ((TW_START, 0) # (TW_MR_SLA_ACK, 0) # take k ?es)
                                 (fst (GetI2C 0x50 3 100 zero_sys)))) = (k + 1 < 3)"
    using inst [THEN conjunct2, THEN conjunct2, THEN conjunct1] by simp
  have ops: "snd (run ((TW_START, 0) # (TW_MR_SLA_ACK, 0) # ?es)
                      (fst (GetI2C 0x50 3 100 zero_sys))) =
               [WRITE TWDR 0xA1, CLR_BIT TWCR TWSTA, SET_BIT TWCR TWEA, STEP_I2C,
                READ TWDR, STEP_I2C, READ TWDR, CLR_BIT TWCR TWEA, STEP_I2C, READ TWDR, STOP_I2C]"
    by (simp only: inst [THEN conjunct2, THEN conjunct2, THEN conjunct2, THEN conjunct1])
       simp
  show ?thesis
    using h1 h2 h3 ram twea [rule_format, of 0] twea [rule_format, of 1] twea [rule_format, of 2] ops
    by (simp del: run.simps)
qed

section \<open>A read after a write without STOP\<close>

text \<open>
  C9. GetI2C assigns the address byte, the count, the cursor and the status and leaves
  NoStop as it is, so after PutI2C with NoStop set, any interrupts, and then GetI2C,
  NoStop is still set and stays set through the interrupts of the read. No case of a
  read consults it: the address-ACK, address-NACK and data interrupts of a read do
  the same with NoStop set as with NoStop clear. So the read ends with a STOP all the
  same, with bytes to read as with none.
\<close>

theorem read_after_write_without_stop:
  assumes "n \<noteq> 0" and "length es = unat n" and "list_all data_received es"
  shows "fst (GetI2C a n buf s) =
           s\<lparr>I2C := (I2C s)\<lparr>SlaveAddr := push_bit 1 a OR 1, nBytes := n, Buffer := buf,
                              Status := I2C_WORKING\<rparr>\<rparr>
       \<and> NoStop (I2C (fst (GetI2C a n buf s))) = NoStop (I2C s)
       \<and> NoStop (I2C (fst (run es2 (fst (GetI2C a n buf
            (fst (run es1 (fst (PutI2C a1 n1 buf1 True s)))))))))
       \<and> NoStop (I2C (fst (run ((TW_REP_START, d0) # (TW_MR_SLA_ACK, d1) # es)
            (fst (GetI2C a n buf (fst (run es1 (fst (PutI2C a1 n1 buf1 True s)))))))))
       \<and> I2CStatus (fst (run ((TW_REP_START, d0) # (TW_MR_SLA_ACK, d1) # es)
            (fst (GetI2C a n buf (fst (run es1 (fst (PutI2C a1 n1 buf1 True s)))))))) =
           I2C_COMPLETE
       \<and> last (snd (run ((TW_REP_START, d0) # (TW_MR_SLA_ACK, d1) # es)
            (fst (GetI2C a n buf (fst (run es1 (fst (PutI2C a1 n1 buf1 True s)))))))) =
           STOP_I2C
       \<and> run [(TW_REP_START, d0), (TW_MR_SLA_ACK, d1)]
            (fst (GetI2C a 0 buf (fst (run es1 (fst (PutI2C a1 n1 buf1 True s)))))) =
           ((fst (GetI2C a 0 buf (fst (run es1 (fst (PutI2C a1 n1 buf1 True s))))))
              \<lparr>I2C := (I2C (fst (GetI2C a 0 buf (fst (run es1 (fst (PutI2C a1 n1 buf1 True s)))))))
                        \<lparr>Status := I2C_COMPLETE\<rparr>\<rparr>,
            [WRITE TWDR (push_bit 1 a OR 1), CLR_BIT TWCR TWSTA, STOP_I2C])
       \<and> ISR TW_MR_SLA_ACK d (s'\<lparr>I2C := (I2C s')\<lparr>NoStop := ns\<rparr>\<rparr>) =
           ((fst (ISR TW_MR_SLA_ACK d s'))
              \<lparr>I2C := (I2C (fst (ISR TW_MR_SLA_ACK d s')))\<lparr>NoStop := ns\<rparr>\<rparr>,
            snd (ISR TW_MR_SLA_ACK d s'))
       \<and> ISR TW_MR_SLA_NACK d (s'\<lparr>I2C := (I2C s')\<lparr>NoStop := ns\<rparr>\<rparr>) =
           ((fst (ISR TW_MR_SLA_NACK d s'))
              \<lparr>I2C := (I2C (fst (ISR TW_MR_SLA_NACK d s')))\<lparr>NoStop := ns\<rparr>\<rparr>,
            snd (ISR TW_MR_SLA_NACK d s'))
       \<and> ISR TW_MR_DATA_ACK d (s'\<lparr>I2C := (I2C s')\<lparr>NoStop := ns\<rparr>\<rparr>) =
           ((fst (ISR TW_MR_DATA_ACK d s'))
              \<lparr>I2C := (I2C (fst (ISR TW_MR_DATA_ACK d s')))\<lparr>NoStop := ns\<rparr>\<rparr>,
            snd (ISR TW_MR_DATA_ACK d s'))
       \<and> ISR TW_MR_DATA_NACK d (s'\<lparr>I2C := (I2C s')\<lparr>NoStop := ns\<rparr>\<rparr>) =
           ((fst (ISR TW_MR_DATA_NACK d s'))
              \<lparr>I2C := (I2C (fst (ISR TW_MR_DATA_NACK d s')))\<lparr>NoStop := ns\<rparr>\<rparr>,
            snd (ISR TW_MR_DATA_NACK d s'))"
proof -
  let ?w = "fst (run es1 (fst (PutI2C a1 n1 buf1 True s)))"
  let ?s1 = "fst (GetI2C a n buf ?w)"
  let ?full = "run ((TW_REP_START, d0) # (TW_MR_SLA_ACK, d1) # es) ?s1"
  have get: "fst (GetI2C a n buf s) =
               s\<lparr>I2C := (I2C s)\<lparr>SlaveAddr := push_bit 1 a OR 1, nBytes := n, Buffer := buf,
                                  Status := I2C_WORKING\<rparr>\<rparr>"
            "NoStop (I2C (fst (GetI2C a n buf s))) = NoStop (I2C s)"
    by (simp_all add: GetI2C_def del: push_bit_eq_mult)
  have w: "NoStop (I2C ?w)"
    by (simp add: run_frame PutI2C_def)
  then have s1: "NoStop (I2C ?s1)" "nBytes (I2C ?s1) = n"
    by (simp_all add: GetI2C_def)
  have stale: "NoStop (I2C (fst (run es2 ?s1)))" "NoStop (I2C (fst ?full))"
    using s1(1) by (simp_all only: run_frame)
  note cd = count_down [OF assms(1)]
  have ne: "es \<noteq> []"
    using assms(2) cd(4) by auto
  have len: "length es = unat (nBytes (I2C ?s1))"
    using assms(2) by (simp only: s1)
  note complete = run_data_complete [OF assms(3) ne len]
  have status: "I2CStatus (fst ?full) = I2C_COMPLETE"
    using complete by (simp only: read_prefix(2) [OF assms(1)] fst_conv I2CStatus_def)
  have stop: "last (snd ?full) = STOP_I2C"
    using complete by (simp only: read_prefix(2) [OF assms(1)] snd_conv) simp
  have zero: "run [(TW_REP_START, d0), (TW_MR_SLA_ACK, d1)] (fst (GetI2C a 0 buf ?w)) =
           ((fst (GetI2C a 0 buf ?w))
              \<lparr>I2C := (I2C (fst (GetI2C a 0 buf ?w)))\<lparr>Status := I2C_COMPLETE\<rparr>\<rparr>,
            [WRITE TWDR (push_bit 1 a OR 1), CLR_BIT TWCR TWSTA, STOP_I2C])"
    by (simp add: Let_def ISR_cases GetI2C_def del: push_bit_eq_mult)
  have blind:
    "ISR TW_MR_SLA_ACK d (s'\<lparr>I2C := (I2C s')\<lparr>NoStop := ns\<rparr>\<rparr>) =
           ((fst (ISR TW_MR_SLA_ACK d s'))
              \<lparr>I2C := (I2C (fst (ISR TW_MR_SLA_ACK d s')))\<lparr>NoStop := ns\<rparr>\<rparr>,
            snd (ISR TW_MR_SLA_ACK d s'))"
    "ISR TW_MR_SLA_NACK d (s'\<lparr>I2C := (I2C s')\<lparr>NoStop := ns\<rparr>\<rparr>) =
           ((fst (ISR TW_MR_SLA_NACK d s'))
              \<lparr>I2C := (I2C (fst (ISR TW_MR_SLA_NACK d s')))\<lparr>NoStop := ns\<rparr>\<rparr>,
            snd (ISR TW_MR_SLA_NACK d s'))"
    "ISR TW_MR_DATA_ACK d (s'\<lparr>I2C := (I2C s')\<lparr>NoStop := ns\<rparr>\<rparr>) =
           ((fst (ISR TW_MR_DATA_ACK d s'))
              \<lparr>I2C := (I2C (fst (ISR TW_MR_DATA_ACK d s')))\<lparr>NoStop := ns\<rparr>\<rparr>,
            snd (ISR TW_MR_DATA_ACK d s'))"
    "ISR TW_MR_DATA_NACK d (s'\<lparr>I2C := (I2C s')\<lparr>NoStop := ns\<rparr>\<rparr>) =
           ((fst (ISR TW_MR_DATA_NACK d s'))
              \<lparr>I2C := (I2C (fst (ISR TW_MR_DATA_NACK d s')))\<lparr>NoStop := ns\<rparr>\<rparr>,
            snd (ISR TW_MR_DATA_NACK d s'))"
    by (simp_all add: ISR_cases)
  show ?thesis
    using get stale status stop zero blind by blast
qed

theorem read_after_write_without_stop_witness:
  "(2 :: 8 word) \<noteq> 0
   \<and> length [(TW_MR_DATA_ACK, 0x11), (TW_MR_DATA_NACK, 0x22 :: 8 word)] = unat (2 :: 8 word)
   \<and> list_all data_received [(TW_MR_DATA_ACK, 0x11), (TW_MR_DATA_NACK, 0x22)]
   \<and> run [(TW_START, 0), (TW_MT_SLA_ACK, 0), (TW_MT_DATA_ACK, 0)]
          (fst (PutI2C 0x50 1 200 True zero_sys)) =
       (zero_sys\<lparr>I2C := \<lparr>SlaveAddr = 0xA0, nBytes = 0, Buffer = 201, NoStop = True,
                          Status = I2C_COMPLETE\<rparr>\<rparr>,
        [WRITE TWDR 0xA0, CLR_BIT TWCR TWSTA, WRITE TWDR 0, STEP_I2C])
   \<and> NoStop (I2C (fst (run [(TW_REP_START, 0), (TW_MR_SLA_ACK, 0), (TW_MR_DATA_ACK, 0x11),
                             (TW_MR_DATA_NACK, 0x22)]
        (fst (GetI2C 0x50 2 100
          (fst (run [(TW_START, 0), (TW_MT_SLA_ACK, 0), (TW_MT_DATA_ACK, 0)]
                    (fst (PutI2C 0x50 1 200 True zero_sys)))))))))
   \<and> last (snd (run [(TW_REP_START, 0), (TW_MR_SLA_ACK, 0), (TW_MR_DATA_ACK, 0x11),
                     (TW_MR_DATA_NACK, 0x22)]
        (fst (GetI2C 0x50 2 100
          (fst (run [(TW_START, 0), (TW_MT_SLA_ACK, 0), (TW_MT_DATA_ACK, 0)]
                    (fst (PutI2C 0x50 1 200 True zero_sys)))))))) = SET_MASK TWCR [TWINT, TWSTO]"
proof -
  let ?es = "[(TW_MR_DATA_ACK, 0x11), (TW_MR_DATA_NACK, 0x22 :: 8 word)]"
  let ?es1 = "[(TW_START, 0), (TW_MT_SLA_ACK, 0), (TW_MT_DATA_ACK, 0 :: 8 word)]"
  have h1: "(2 :: 8 word) \<noteq> 0" by simp
  have h2: "length ?es = unat (2 :: 8 word)" by simp
  have h3: "list_all data_received ?es" by (simp add: data_received_def)
  note inst = read_after_write_without_stop [where n = 2 and es = ?es and a = "0x50"
      and buf = 100 and s = zero_sys and ?es1.0 = ?es1 and ?a1.0 = "0x50" and ?n1.0 = 1
      and ?buf1.0 = 200 and ?d0.0 = 0 and ?d1.0 = 0, OF h1 h2 h3]
  have w: "run ?es1 (fst (PutI2C 0x50 1 200 True zero_sys)) =
       (zero_sys\<lparr>I2C := \<lparr>SlaveAddr = 0xA0, nBytes = 0, Buffer = 201, NoStop = True,
                          Status = I2C_COMPLETE\<rparr>\<rparr>,
        [WRITE TWDR 0xA0, CLR_BIT TWCR TWSTA, WRITE TWDR 0, STEP_I2C])"
    by (simp add: Let_def ISR_cases PutI2C_def zero_sys_def)
  show ?thesis
    using h1 h2 h3 w
      inst [THEN conjunct2, THEN conjunct2, THEN conjunct2, THEN conjunct1]
      inst [THEN conjunct2, THEN conjunct2, THEN conjunct2, THEN conjunct2, THEN conjunct2,
            THEN conjunct1]
    by (simp only: STOP_I2C_def) simp
qed

end
